theory Spec2Isabelle
  imports Main
begin

section \<open>DicomStudy (MINTConformance): a shallow embedding\<close>

text \<open>
  The source is \<^verbatim>\<open>org/nema/medical/mint/DicomStudy.py\<close> (Python 2). The class
  \<^verbatim>\<open>DicomStudy\<close> is embedded field by field and method by method. Everything a
  method does besides returning is explicit: the filesystem, standard output and the
  log of descriptor releases live in a \<open>world\<close> record that every effectful method
  takes and returns; a raised exception is a value of type \<open>error\<close>, returned together
  with the world and the object as they are at the moment of the raise.
\<close>

subsection \<open>Exceptions\<close>

datatype error =
    IOError string
  | NameError string
  | IndexError string
  | KeyError string
  | ValueError string
  | ExternalError string

subsection \<open>The collaborators \<^verbatim>\<open>DataDictionary\<close> and \<^verbatim>\<open>DicomInstance\<close>\<close>

text \<open>
  Both classes are imported by the source and not part of it. A data dictionary is
  opaque: it is built from a URL and only passed on. A descriptor carries what the
  study reads from it: the file it was built from, its two identifiers, the text its
  own \<^verbatim>\<open>debug\<close> writes, and the exception its \<^verbatim>\<open>tidy\<close> raises (\<open>None\<close> when
  \<^verbatim>\<open>tidy\<close> returns).
\<close>

datatype DataDictionary = DataDictionary string

record DicomInstance =
  dcmName :: string
  sopInstanceUID :: string
  instStudyInstanceUID :: string
  debugBlock :: string
  tidyRaises :: "error option"

text \<open>
  The behaviour of the collaborators' constructors and of the static predicate
  \<^verbatim>\<open>DicomInstance.isDicom\<close> is a parameter of the model.
\<close>

record env =
  isDicom :: "string \<Rightarrow> bool"
  newDicomInstance :: "string \<Rightarrow> DataDictionary \<Rightarrow> error + DicomInstance"
  newDataDictionary :: "string \<Rightarrow> error + DataDictionary"

subsection \<open>The world: filesystem, standard output, release log\<close>

text \<open>
  A directory is what \<^verbatim>\<open>os.listdir\<close> reports of it, split as \<^verbatim>\<open>os.walk\<close> splits it:
  the names that are not directories, and the subdirectories by name, each in listing
  order. Symbolic links to directories (which \<^verbatim>\<open>os.walk\<close> lists and does not enter)
  are not modelled.
\<close>

datatype dtree = Dir (dfiles: "string list") (dsubs: "(string \<times> dtree) list")

record world =
  dirs :: "string \<rightharpoonup> dtree"
  files :: "string \<rightharpoonup> string"
  stdout :: string
  tidied :: "DicomInstance list"

text \<open>A Python file object opened for writing: the path it writes to and its closed flag.\<close>

record pyfile =
  fname :: string
  fclosed :: bool

definition isdir :: "world \<Rightarrow> string \<Rightarrow> bool" where
  "isdir w p = (dirs w p \<noteq> None)"

text \<open>\<^verbatim>\<open>os.access(p, os.F_OK)\<close>: the path exists, as a file or as a directory.\<close>

definition access_F_OK :: "world \<Rightarrow> string \<Rightarrow> bool" where
  "access_F_OK w p = (dirs w p \<noteq> None \<or> files w p \<noteq> None)"

text \<open>
  \<^verbatim>\<open>open(p, "w")\<close>: creates the file or truncates it. Opening a directory raises; the
  other failures of the operating system (permissions, a missing parent directory) are
  not modelled.
\<close>

definition open_w :: "world \<Rightarrow> string \<Rightarrow> error + (world \<times> pyfile)" where
  "open_w w p =
     (if dirs w p \<noteq> None then Inl (IOError (''Is a directory - '' @ p))
      else Inr (w\<lparr>files := (files w)(p \<mapsto> [])\<rparr>, \<lparr>fname = p, fclosed = False\<rparr>))"

definition newline :: string where
  "newline = [CHR 0x0A]"

text \<open>\<^verbatim>\<open>f.write(data)\<close>: raises \<^verbatim>\<open>ValueError\<close> on a closed file, appends otherwise.\<close>

definition file_write :: "world \<Rightarrow> pyfile \<Rightarrow> string \<Rightarrow> error option \<times> world" where
  "file_write w f data =
     (if fclosed f then (Some (ValueError ''I/O operation on closed file''), w)
      else (None, w\<lparr>files := (files w)(fname f \<mapsto>
              (case files w (fname f) of None \<Rightarrow> data | Some c \<Rightarrow> c @ data))\<rparr>))"

text \<open>\<^verbatim>\<open>f.close()\<close>: sets the flag; closing a closed file is allowed.\<close>

definition file_close :: "pyfile \<Rightarrow> pyfile" where
  "file_close f = f\<lparr>fclosed := True\<rparr>"

text \<open>\<^verbatim>\<open>print a, b\<close> of Python 2: the items separated by a space, then a newline.\<close>

definition print2 :: "world \<Rightarrow> string \<Rightarrow> string \<Rightarrow> world" where
  "print2 w a b = w\<lparr>stdout := stdout w @ a @ '' '' @ b @ newline\<rparr>"

text \<open>
  Modelled from the spec: \<^verbatim>\<open>DicomInstance.tidy\<close> (the descriptor's
  \<^verbatim>\<open>ReleaseResources()\<close>) is absent from the source. Each invocation is recorded in
  the world's release log, whether it returns or raises.
\<close>

definition instTidy :: "world \<Rightarrow> DicomInstance \<Rightarrow> error option \<times> world" where
  "instTidy w i = (tidyRaises i, w\<lparr>tidied := tidied w @ [i]\<rparr>)"

text \<open>
  Modelled from the spec: \<^verbatim>\<open>DicomInstance.debug\<close> (the descriptor's
  \<^verbatim>\<open>WriteDebugDump(sink)\<close>) is absent from the source. It writes the descriptor's
  block to the sink it is passed, and to standard output when it is passed \<^verbatim>\<open>None\<close>.
\<close>

definition instDebug :: "world \<Rightarrow> DicomInstance \<Rightarrow> pyfile option \<Rightarrow> error option \<times> world" where
  "instDebug w i out =
     (case out of
        None \<Rightarrow> (None, w\<lparr>stdout := stdout w @ debugBlock i\<rparr>)
      | Some f \<Rightarrow> file_write w f (debugBlock i))"

subsection \<open>\<^verbatim>\<open>os.path.join\<close> and \<^verbatim>\<open>os.walk(top, topdown=False)\<close>\<close>

definition join :: "string \<Rightarrow> string \<Rightarrow> string" where
  "join a b =
     (if b \<noteq> [] \<and> hd b = CHR ''/'' then b
      else if a = [] \<or> last a = CHR ''/'' then a @ b
      else a @ ''/'' @ b)"

text \<open>
  With \<^verbatim>\<open>topdown=False\<close> the triple of a directory is generated after the triples of
  all its subdirectories; \<open>walk_subs\<close> is the loop over the subdirectory names.
\<close>

fun walk :: "string \<Rightarrow> dtree \<Rightarrow> (string \<times> string list \<times> string list) list"
  and walk_subs :: "string \<Rightarrow> (string \<times> dtree) list \<Rightarrow> (string \<times> string list \<times> string list) list"
where
  "walk tp (Dir fs subs) = walk_subs tp subs @ [(tp, map fst subs, fs)]"
| "walk_subs tp [] = []"
| "walk_subs tp ((name, sub) # rest) = walk (join tp name) sub @ walk_subs tp rest"

text \<open>A path that cannot be listed yields nothing (\<^verbatim>\<open>onerror\<close> is \<^verbatim>\<open>None\<close>).\<close>

definition os_walk :: "world \<Rightarrow> string \<Rightarrow> (string \<times> string list \<times> string list) list" where
  "os_walk w tp = (case dirs w tp of None \<Rightarrow> [] | Some t \<Rightarrow> walk tp t)"

subsection \<open>The class \<^verbatim>\<open>DicomStudy\<close>\<close>

record DicomStudy =
  dcmDir :: string
  instances :: "DicomInstance list"
  instancesByUID :: "string \<rightharpoonup> DicomInstance"
  dataDictionary :: DataDictionary
  output_file :: "pyfile option"

text \<open>
  \<^verbatim>\<open>__read\<close>, first loop: the accepted file names, in the order of the walk.
\<close>

definition accepted :: "env \<Rightarrow> string \<times> string list \<times> string list \<Rightarrow> string list" where
  "accepted e triple =
     (case triple of (root, ds, fs) \<Rightarrow> filter (isDicom e) (map (join root) fs))"

definition dcmNames :: "env \<Rightarrow> world \<Rightarrow> string \<Rightarrow> string list" where
  "dcmNames e w tp = concat (map (accepted e) (os_walk w tp))"

text \<open>
  \<^verbatim>\<open>__read\<close>, second loop: one descriptor per name, appended to the sequence and
  stored in the index under its SOP instance UID (\<open>index_put\<close> is the assignment to
  the dictionary). A constructor that raises ends the loop with its exception.
\<close>

definition index_put ::
  "DicomInstance \<Rightarrow> (string \<rightharpoonup> DicomInstance) \<Rightarrow> (string \<rightharpoonup> DicomInstance)" where
  "index_put i m = m(sopInstanceUID i \<mapsto> i)"

fun read_loop :: "env \<Rightarrow> string list \<Rightarrow> DicomStudy \<Rightarrow> error + DicomStudy" where
  "read_loop e [] s = Inr s"
| "read_loop e (name # rest) s =
     (case newDicomInstance e name (dataDictionary s) of
        Inl x \<Rightarrow> Inl x
      | Inr i \<Rightarrow>
          read_loop e rest
            (s\<lparr>instances := instances s @ [i],
               instancesByUID := index_put i (instancesByUID s)\<rparr>))"

definition read :: "env \<Rightarrow> world \<Rightarrow> DicomStudy \<Rightarrow> error + DicomStudy" where
  "read e w s = read_loop e (dcmNames e w (dcmDir s)) s"

text \<open>\<^verbatim>\<open>__init__\<close>: on a raise no object exists, so the result is the exception alone.\<close>

definition init :: "env \<Rightarrow> world \<Rightarrow> string \<Rightarrow> string \<Rightarrow> error + DicomStudy" where
  "init e w dir url =
     (if \<not> isdir w dir then Inl (IOError (''Directory does not exist - '' @ dir))
      else
        (case newDataDictionary e url of
           Inl x \<Rightarrow> Inl x
         | Inr dd \<Rightarrow>
             read e w \<lparr>dcmDir = dir, instances = [], instancesByUID = Map.empty,
                       dataDictionary = dd, output_file = None\<rparr>))"

text \<open>
  \<^verbatim>\<open>setOutput\<close>. With a sink attached the second statement evaluates
  \<^verbatim>\<open>self.__output(close)\<close>: the name \<^verbatim>\<open>close\<close> is bound nowhere in the module, so
  the statement raises \<^verbatim>\<open>NameError\<close> before anything is called.
\<close>

definition setOutput ::
  "world \<Rightarrow> DicomStudy \<Rightarrow> string \<Rightarrow> (error + unit) \<times> world \<times> DicomStudy" where
  "setOutput w s out =
     (if out = [] then (Inr (), w, s)
      else if output_file s \<noteq> None then (Inl (NameError ''close''), w, s)
      else if access_F_OK w out then (Inl (IOError (''File already exists - '' @ out)), w, s)
      else
        (case open_w w out of
           Inl x \<Rightarrow> (Inl x, w, s)
         | Inr (w', f) \<Rightarrow> (Inr (), w', s\<lparr>output_file := Some f\<rparr>)))"

text \<open>\<^verbatim>\<open>tidy\<close>: the loop over the descriptors, then the close of the sink.\<close>

fun tidy_loop :: "world \<Rightarrow> DicomInstance list \<Rightarrow> error option \<times> world" where
  "tidy_loop w [] = (None, w)"
| "tidy_loop w (i # rest) =
     (case instTidy w i of
        (Some x, w') \<Rightarrow> (Some x, w')
      | (None, w') \<Rightarrow> tidy_loop w' rest)"

definition tidy :: "world \<Rightarrow> DicomStudy \<Rightarrow> (error + unit) \<times> world \<times> DicomStudy" where
  "tidy w s =
     (case tidy_loop w (instances s) of
        (Some x, w') \<Rightarrow> (Inl x, w', s)
      | (None, w') \<Rightarrow>
          (case output_file s of
             None \<Rightarrow> (Inr (), w', s)
           | Some f \<Rightarrow> (Inr (), w', s\<lparr>output_file := Some (file_close f)\<rparr>)))"

definition numInstances :: "DicomStudy \<Rightarrow> int" where
  "numInstances s = int (length (instances s))"

text \<open>
  \<^verbatim>\<open>instance(n)\<close> is \<^verbatim>\<open>self.__instances[n]\<close>: list indexing of Python, where a
  negative index counts from the end.
\<close>

definition instance_n :: "DicomStudy \<Rightarrow> int \<Rightarrow> error + DicomInstance" where
  "instance_n s n =
     (let len = int (length (instances s)) in
      if 0 \<le> n \<and> n < len then Inr (instances s ! nat n)
      else if - len \<le> n \<and> n < 0 then Inr (instances s ! nat (n + len))
      else Inl (IndexError ''list index out of range''))"

definition instanceByUID :: "DicomStudy \<Rightarrow> string \<Rightarrow> error + DicomInstance" where
  "instanceByUID s uid =
     (case instancesByUID s uid of None \<Rightarrow> Inl (KeyError uid) | Some i \<Rightarrow> Inr i)"

definition studyInstanceUID :: "DicomStudy \<Rightarrow> error + string" where
  "studyInstanceUID s =
     (if numInstances s > 0 then
        (case instance_n s 0 of Inl x \<Rightarrow> Inl x | Inr i \<Rightarrow> Inr (instStudyInstanceUID i))
      else Inr [])"

text \<open>\<^verbatim>\<open>debug\<close>: the header line, then every descriptor's own dump on the same sink.\<close>

fun debug_loop :: "world \<Rightarrow> DicomStudy \<Rightarrow> nat list \<Rightarrow> error option \<times> world" where
  "debug_loop w s [] = (None, w)"
| "debug_loop w s (n # rest) =
     (case instance_n s (int n) of
        Inl x \<Rightarrow> (Some x, w)
      | Inr i \<Rightarrow>
          (case instDebug w i (output_file s) of
             (Some x, w') \<Rightarrow> (Some x, w')
           | (None, w') \<Rightarrow> debug_loop w' s rest))"

definition debug :: "world \<Rightarrow> DicomStudy \<Rightarrow> (error + unit) \<times> world \<times> DicomStudy" where
  "debug w s =
     (case studyInstanceUID s of
        Inl x \<Rightarrow> (Inl x, w, s)
      | Inr uid \<Rightarrow>
          (case (case output_file s of
                   None \<Rightarrow> (None, print2 w ''> Study'' uid)
                 | Some f \<Rightarrow> file_write w f (''> Study '' @ uid @ newline)) of
             (Some x, w') \<Rightarrow> (Inl x, w', s)
           | (None, w') \<Rightarrow>
               (case debug_loop w' s [0 ..< nat (numInstances s)] of
                  (Some x, w'') \<Rightarrow> (Inl x, w'', s)
                | (None, w'') \<Rightarrow> (Inr (), w'', s))))"

subsection \<open>Locations in a directory tree\<close>

text \<open>
  A directory below the walked one is named by the subdirectory names that lead to it;
  \<open>path_of\<close> is the path \<^verbatim>\<open>os.walk\<close> builds for it with \<^verbatim>\<open>join\<close>.
\<close>

fun subtree_at :: "dtree \<Rightarrow> string list \<Rightarrow> dtree option" where
  "subtree_at t [] = Some t"
| "subtree_at (Dir fs subs) (c # cs) =
     (case map_of subs c of None \<Rightarrow> None | Some t' \<Rightarrow> subtree_at t' cs)"

definition path_of :: "string \<Rightarrow> string list \<Rightarrow> string" where
  "path_of tp cs = foldl join tp cs"

subsection \<open>Concrete inputs\<close>

definition inst_a :: DicomInstance where
  "inst_a = \<lparr>dcmName = ''/studies/A/sub/a.dcm'', sopInstanceUID = ''1.2.3'',
             instStudyInstanceUID = ''9.9'', debugBlock = ''>> a'', tidyRaises = None\<rparr>"

definition inst_b :: DicomInstance where
  "inst_b = \<lparr>dcmName = ''/studies/A/b.dcm'', sopInstanceUID = ''1.2.3'',
             instStudyInstanceUID = ''9.9'', debugBlock = ''>> b'', tidyRaises = None\<rparr>"

definition inst_bad :: DicomInstance where
  "inst_bad = \<lparr>dcmName = ''/studies/A/sub/c.dcm'', sopInstanceUID = ''1.2.5'',
             instStudyInstanceUID = ''9.9'', debugBlock = ''>> c'',
             tidyRaises = Some (ExternalError ''cannot remove'')\<rparr>"

definition study_one :: DicomStudy where
  "study_one = \<lparr>dcmDir = ''/studies/A'', instances = [inst_a],
      instancesByUID = [''1.2.3'' \<mapsto> inst_a], dataDictionary = DataDictionary ''url'',
      output_file = None\<rparr>"

definition study_bad :: DicomStudy where
  "study_bad = \<lparr>dcmDir = ''/studies/A'', instances = [inst_bad, inst_a],
      instancesByUID = [''1.2.5'' \<mapsto> inst_bad, ''1.2.3'' \<mapsto> inst_a],
      dataDictionary = DataDictionary ''url'', output_file = None\<rparr>"

definition study_sink :: DicomStudy where
  "study_sink = study_one\<lparr>output_file := Some \<lparr>fname = ''/tmp/old.txt'', fclosed = False\<rparr>\<rparr>"

definition world0 :: world where
  "world0 = \<lparr>dirs = [''/studies/A'' \<mapsto>
                 Dir [''b.dcm'', ''notes.txt''] [(''sub'', Dir [''a.dcm''] [])]],
             files = [''/tmp/old.txt'' \<mapsto> ''kept''], stdout = [], tidied = []\<rparr>"

definition env0 :: env where
  "env0 = \<lparr>isDicom = (\<lambda>n. n = ''/studies/A/sub/a.dcm'' \<or> n = ''/studies/A/b.dcm''),
           newDicomInstance = (\<lambda>n dd.
              if n = ''/studies/A/sub/a.dcm'' then Inr inst_a
              else if n = ''/studies/A/b.dcm'' then Inr inst_b
              else Inl (ExternalError n)),
           newDataDictionary = (\<lambda>u. Inr (DataDictionary u))\<rparr>"

definition study0 :: DicomStudy where
  "study0 = \<lparr>dcmDir = ''/studies/A'', instances = [inst_a, inst_b],
      instancesByUID = [''1.2.3'' \<mapsto> inst_b], dataDictionary = DataDictionary ''url'',
      output_file = None\<rparr>"

text \<open>
  A second tree: \<^verbatim>\<open>/r\<close> holds the directories \<^verbatim>\<open>a\<close> and \<^verbatim>\<open>z\<close>; \<^verbatim>\<open>a\<close> holds
  \<^verbatim>\<open>g.dcm\<close> and the directory \<^verbatim>\<open>deep\<close> with \<^verbatim>\<open>f.dcm\<close>; \<^verbatim>\<open>z\<close> holds \<^verbatim>\<open>h.dcm\<close>.
  All three files are accepted and report the same SOP instance UID.
\<close>

definition inst_f :: DicomInstance where
  "inst_f = \<lparr>dcmName = ''/r/a/deep/f.dcm'', sopInstanceUID = ''1.2.3'',
             instStudyInstanceUID = ''9.9'', debugBlock = ''>> f'', tidyRaises = None\<rparr>"

definition inst_g :: DicomInstance where
  "inst_g = \<lparr>dcmName = ''/r/a/g.dcm'', sopInstanceUID = ''1.2.3'',
             instStudyInstanceUID = ''9.9'', debugBlock = ''>> g'', tidyRaises = None\<rparr>"

definition inst_h :: DicomInstance where
  "inst_h = \<lparr>dcmName = ''/r/z/h.dcm'', sopInstanceUID = ''1.2.3'',
             instStudyInstanceUID = ''9.9'', debugBlock = ''>> h'', tidyRaises = None\<rparr>"

definition tree_deep :: dtree where
  "tree_deep = Dir [''f.dcm''] []"

definition tree_a :: dtree where
  "tree_a = Dir [''g.dcm''] [(''deep'', tree_deep)]"

definition tree_z :: dtree where
  "tree_z = Dir [''h.dcm''] []"

definition tree_r :: dtree where
  "tree_r = Dir [] [(''a'', tree_a), (''z'', tree_z)]"

definition world1 :: world where
  "world1 = \<lparr>dirs = [''/r'' \<mapsto> tree_r, ''/r/a'' \<mapsto> tree_a,
                     ''/r/a/deep'' \<mapsto> tree_deep, ''/r/z'' \<mapsto> tree_z],
             files = [''/r/a/deep/f.dcm'' \<mapsto> ''f'', ''/r/a/g.dcm'' \<mapsto> ''g'',
                      ''/r/z/h.dcm'' \<mapsto> ''h''],
             stdout = [], tidied = []\<rparr>"

definition env1 :: env where
  "env1 = \<lparr>isDicom = (\<lambda>n. True),
           newDicomInstance = (\<lambda>n dd.
              if n = ''/r/a/deep/f.dcm'' then Inr inst_f
              else if n = ''/r/a/g.dcm'' then Inr inst_g
              else if n = ''/r/z/h.dcm'' then Inr inst_h
              else Inl (ExternalError n)),
           newDataDictionary = (\<lambda>u. Inr (DataDictionary u))\<rparr>"

definition study1 :: DicomStudy where
  "study1 = \<lparr>dcmDir = ''/r'', instances = [inst_f, inst_g, inst_h],
      instancesByUID = [''1.2.3'' \<mapsto> inst_h], dataDictionary = DataDictionary ''url'',
      output_file = None\<rparr>"

section \<open>Properties\<close>

subsection \<open>\<^verbatim>\<open>tidy\<close>\<close>

lemma tidy_loop_all_return:
  "\<forall>i \<in> set xs. tidyRaises i = None \<Longrightarrow>
     tidy_loop w xs = (None, w\<lparr>tidied := tidied w @ xs\<rparr>)"
  by (induction xs arbitrary: w) (simp_all add: instTidy_def)

lemma tidy_loop_first_raise:
  "\<forall>i \<in> set pre. tidyRaises i = None \<Longrightarrow> tidyRaises i = Some x \<Longrightarrow>
     tidy_loop w (pre @ i # post) = (Some x, w\<lparr>tidied := tidied w @ pre @ [i]\<rparr>)"
  by (induction pre arbitrary: w) (simp_all add: instTidy_def)

text \<open>
  C1, as stated, fails on the code in both of its parts. The loop of \<^verbatim>\<open>tidy\<close> is
  unguarded: in a study of two descriptors whose first release raises, the second
  descriptor is never released. And nothing records that \<^verbatim>\<open>tidy\<close> has run: a second
  call on a study of one descriptor releases that descriptor a second time.
\<close>

theorem tidy_counterexample:
  "tidy world0 study_bad
     = (Inl (ExternalError ''cannot remove''), world0\<lparr>tidied := [inst_bad]\<rparr>, study_bad)
   \<and> instances study_bad = [inst_bad, inst_a]
   \<and> tidy world0 study_one = (Inr (), world0\<lparr>tidied := [inst_a]\<rparr>, study_one)
   \<and> tidy (world0\<lparr>tidied := [inst_a]\<rparr>) study_one
        = (Inr (), world0\<lparr>tidied := [inst_a, inst_a]\<rparr>, study_one)"
  by (simp add: tidy_def study_bad_def study_one_def world0_def instTidy_def
      inst_bad_def inst_a_def)

text \<open>
  C1, amended: \<^verbatim>\<open>tidy\<close> invokes the releases in sequence order, one invocation per
  descriptor and call. When no release raises, one call releases every descriptor of
  the sequence exactly once (whatever their number) and then closes the sink if one
  is attached, and a second call releases every descriptor once more. When a release
  raises, the call ends there with that exception: the descriptors up to the raising
  one have been released once, the later ones not at all, and the sink is untouched.
\<close>

theorem tidy_releases:
  "((\<forall>i \<in> set (instances s). tidyRaises i = None) \<longrightarrow>
      (let w1 = w\<lparr>tidied := tidied w @ instances s\<rparr>;
           s1 = s\<lparr>output_file := map_option file_close (output_file s)\<rparr>
       in tidy w s = (Inr (), w1, s1)
          \<and> tidy w1 s1 = (Inr (), w\<lparr>tidied := tidied w @ instances s @ instances s\<rparr>, s1)))
   \<and> (instances s = pre @ i # post \<and> (\<forall>j \<in> set pre. tidyRaises j = None)
        \<and> tidyRaises i = Some x \<longrightarrow>
      tidy w s = (Inl x, w\<lparr>tidied := tidied w @ pre @ [i]\<rparr>, s))"
proof (intro conjI impI)
  assume ok: "\<forall>i \<in> set (instances s). tidyRaises i = None"
  show "let w1 = w\<lparr>tidied := tidied w @ instances s\<rparr>;
            s1 = s\<lparr>output_file := map_option file_close (output_file s)\<rparr>
        in tidy w s = (Inr (), w1, s1)
           \<and> tidy w1 s1 = (Inr (), w\<lparr>tidied := tidied w @ instances s @ instances s\<rparr>, s1)"
    by (cases "output_file s")
       (simp_all add: tidy_def tidy_loop_all_return ok file_close_def)
next
  assume "instances s = pre @ i # post \<and> (\<forall>j \<in> set pre. tidyRaises j = None)
        \<and> tidyRaises i = Some x"
  then show "tidy w s = (Inl x, w\<lparr>tidied := tidied w @ pre @ [i]\<rparr>, s)"
    by (simp add: tidy_def tidy_loop_first_raise)
qed

theorem tidy_releases_witness:
  "tidy world0 study_sink
     = (Inr (), world0\<lparr>tidied := [inst_a]\<rparr>,
        study_one\<lparr>output_file := Some \<lparr>fname = ''/tmp/old.txt'', fclosed = True\<rparr>\<rparr>)
   \<and> tidy world0 study_bad
     = (Inl (ExternalError ''cannot remove''), world0\<lparr>tidied := [inst_bad]\<rparr>, study_bad)"
proof -
  have ok: "\<forall>i \<in> set (instances study_sink). tidyRaises i = None"
    by (simp add: study_sink_def study_one_def inst_a_def)
  have bad: "instances study_bad = [] @ inst_bad # [inst_a]
      \<and> (\<forall>j \<in> set []. tidyRaises j = None)
      \<and> tidyRaises inst_bad = Some (ExternalError ''cannot remove'')"
    by (simp add: study_bad_def inst_bad_def)
  from tidy_releases [of study_sink world0 "[]" inst_bad "[inst_a]" "ExternalError ''cannot remove''"]
  have a: "tidy world0 study_sink
     = (Inr (), world0\<lparr>tidied := tidied world0 @ instances study_sink\<rparr>,
        study_sink\<lparr>output_file := map_option file_close (output_file study_sink)\<rparr>)"
    using ok by (simp add: Let_def)
  from tidy_releases [of study_bad world0 "[]" inst_bad "[inst_a]" "ExternalError ''cannot remove''"]
  have b: "tidy world0 study_bad
     = (Inl (ExternalError ''cannot remove''), world0\<lparr>tidied := tidied world0 @ [] @ [inst_bad]\<rparr>, study_bad)"
    using bad by blast
  show ?thesis
    using a b by (simp add: study_sink_def study_one_def world0_def file_close_def)
qed

subsection \<open>\<^verbatim>\<open>studyInstanceUID\<close> and \<^verbatim>\<open>instance\<close>\<close>

text \<open>
  C2, as stated, fails on the code: the study returns what the first descriptor's
  \<^verbatim>\<open>studyInstanceUID()\<close> returns, which is the descriptor's parent-study identifier
  and not its unique instance identifier (\<^verbatim>\<open>sopInstanceUID()\<close>, the key of the
  index). For a first descriptor with instance identifier 1.2.3 in study 9.9 the
  result is 9.9.
\<close>

theorem studyInstanceUID_counterexample:
  "studyInstanceUID study_one = Inr ''9.9''
   \<and> sopInstanceUID (hd (instances study_one)) = ''1.2.3''
   \<and> studyInstanceUID study_one \<noteq> Inr (sopInstanceUID (hd (instances study_one)))"
  by (simp add: studyInstanceUID_def instance_n_def study_one_def numInstances_def inst_a_def)

text \<open>
  C2, amended: \<^verbatim>\<open>studyInstanceUID\<close> returns the parent-study identifier of the first
  descriptor of the ordered sequence when the sequence is non-empty, and the empty
  string when it is empty; it never raises.
\<close>

theorem studyInstanceUID_first:
  "studyInstanceUID s =
     Inr (case instances s of [] \<Rightarrow> [] | i # rest \<Rightarrow> instStudyInstanceUID i)"
  by (cases "instances s") (simp_all add: studyInstanceUID_def instance_n_def numInstances_def)

theorem studyInstanceUID_first_witness:
  "studyInstanceUID study_bad = Inr ''9.9''
   \<and> studyInstanceUID (study_bad\<lparr>instances := []\<rparr>) = Inr []"
  using studyInstanceUID_first [of study_bad]
    studyInstanceUID_first [of "study_bad\<lparr>instances := []\<rparr>"]
  by (simp add: study_bad_def inst_bad_def)

text \<open>
  C5, as stated, fails on the code: \<^verbatim>\<open>instance(n)\<close> indexes a Python list, so an
  index in \<open>[-Count, 0)\<close> does not fail but counts from the end. In a study of one
  descriptor, index \<open>-1\<close> is outside \<open>[0, 1)\<close> and returns that descriptor.
\<close>

theorem instance_n_counterexample:
  "instance_n study_one (- 1) = Inr inst_a
   \<and> \<not> (0 \<le> (- 1 :: int) \<and> - 1 < numInstances study_one)"
  by (simp add: instance_n_def study_one_def numInstances_def)

text \<open>
  C5, amended: \<^verbatim>\<open>instance(n)\<close> raises if and only if \<open>n\<close> is not within
  \<open>[-Count, Count)\<close>, and what it raises is \<^verbatim>\<open>IndexError\<close>; for \<open>n\<close> in \<open>[0, Count)\<close>
  it returns the descriptor at that zero-based position, and for \<open>n\<close> in
  \<open>[-Count, 0)\<close> the descriptor at position \<open>n + Count\<close>.
\<close>

theorem instance_n_range:
  "((\<exists>x. instance_n s n = Inl x) \<longleftrightarrow> \<not> (- numInstances s \<le> n \<and> n < numInstances s))
   \<and> (\<forall>x. instance_n s n = Inl x \<longrightarrow> x = IndexError ''list index out of range'')
   \<and> (0 \<le> n \<and> n < numInstances s \<longrightarrow> instance_n s n = Inr (instances s ! nat n))
   \<and> (- numInstances s \<le> n \<and> n < 0 \<longrightarrow>
        instance_n s n = Inr (instances s ! nat (n + numInstances s)))"
  by (auto simp add: instance_n_def numInstances_def Let_def)

theorem instance_n_range_witness:
  "instance_n study_bad 1 = Inr inst_a
   \<and> instance_n study_bad (- 2) = Inr inst_bad
   \<and> instance_n study_bad 2 = Inl (IndexError ''list index out of range'')
   \<and> instance_n study_bad (- 3) = Inl (IndexError ''list index out of range'')"
proof -
  have n: "numInstances study_bad = 2"
    by (simp add: numInstances_def study_bad_def)
  have "instance_n study_bad 1 = Inr inst_a"
    using instance_n_range [of study_bad 1] n by (simp add: study_bad_def)
  moreover have "instance_n study_bad (- 2) = Inr inst_bad"
    using instance_n_range [of study_bad "- 2"] n by (simp add: study_bad_def)
  moreover have "instance_n study_bad 2 = Inl (IndexError ''list index out of range'')"
    using instance_n_range [of study_bad 2] n by auto
  moreover have "instance_n study_bad (- 3) = Inl (IndexError ''list index out of range'')"
    using instance_n_range [of study_bad "- 3"] n by auto
  ultimately show ?thesis by blast
qed

subsection \<open>\<^verbatim>\<open>setOutput\<close>\<close>

text \<open>
  C3 does not hold on the code, which misses it by a slip: with a sink attached and a
  non-empty path, \<^verbatim>\<open>self.__output(close)\<close> raises \<^verbatim>\<open>NameError\<close>. The call ends
  there: the attached sink is neither closed nor replaced and nothing is opened.
\<close>

theorem setOutput_attached_raises:
  assumes "output_file s = Some f" and "p \<noteq> []"
  shows "setOutput w s p = (Inl (NameError ''close''), w, s)"
  using assms by (simp add: setOutput_def)

theorem setOutput_attached_raises_witness:
  "setOutput world0 study_sink ''/tmp/new.txt'' = (Inl (NameError ''close''), world0, study_sink)
   \<and> output_file study_sink = Some \<lparr>fname = ''/tmp/old.txt'', fclosed = False\<rparr>
   \<and> \<not> access_F_OK world0 ''/tmp/new.txt''"
  using setOutput_attached_raises
    [of study_sink "\<lparr>fname = ''/tmp/old.txt'', fclosed = False\<rparr>" "''/tmp/new.txt''" world0]
  by (simp add: study_sink_def world0_def access_F_OK_def)

text \<open>
  C6: with no sink attached, \<^verbatim>\<open>setOutput\<close> on a path that exists raises \<^verbatim>\<open>IOError\<close>
  ("File already exists", the spec's AlreadyExists). The world is returned as it was,
  so the file keeps its contents, and the study is returned as it was, its sink still
  unset. A path that exists is not the empty string.
\<close>

theorem setOutput_existing_path:
  assumes "output_file s = None" and "p \<noteq> []" and "access_F_OK w p"
  shows "setOutput w s p = (Inl (IOError (''File already exists - '' @ p)), w, s)
         \<and> files (fst (snd (setOutput w s p))) p = files w p
         \<and> output_file (snd (snd (setOutput w s p))) = None"
  using assms by (simp add: setOutput_def)

theorem setOutput_existing_path_witness:
  "setOutput world0 study_one ''/tmp/old.txt''
     = (Inl (IOError ''File already exists - /tmp/old.txt''), world0, study_one)
   \<and> files world0 ''/tmp/old.txt'' = Some ''kept''"
  using setOutput_existing_path [of study_one "''/tmp/old.txt''" world0]
  by (simp add: study_one_def world0_def access_F_OK_def)

text \<open>
  C9: with a sink attached, \<^verbatim>\<open>setOutput\<close> on the empty string returns at once. World
  and study are returned as they were: the sink stays attached, with its closed flag
  as before, and the filesystem is untouched.
\<close>

theorem setOutput_empty_keeps_sink:
  assumes "output_file s = Some f"
  shows "setOutput w s [] = (Inr (), w, s)
         \<and> output_file (snd (snd (setOutput w s []))) = Some f"
  using assms by (simp add: setOutput_def)

theorem setOutput_empty_keeps_sink_witness:
  "setOutput world0 study_sink [] = (Inr (), world0, study_sink)
   \<and> output_file study_sink = Some \<lparr>fname = ''/tmp/old.txt'', fclosed = False\<rparr>"
  using setOutput_empty_keeps_sink
    [of study_sink "\<lparr>fname = ''/tmp/old.txt'', fclosed = False\<rparr>" world0]
  by (simp add: study_sink_def)

subsection \<open>Construction: \<^verbatim>\<open>__init__\<close> and \<^verbatim>\<open>__read\<close>\<close>

text \<open>
  The second loop of \<^verbatim>\<open>__read\<close> returns exactly when every constructor returns; the
  study it leaves has the descriptors in the order of the names, and its index is the
  empty dictionary updated with each descriptor in that order.
\<close>

lemma read_loop_total:
  "list_all2 (\<lambda>n d. newDicomInstance e n (dataDictionary s0) = Inr d) names ds \<Longrightarrow>
     read_loop e names s0 =
       Inr (s0\<lparr>instances := instances s0 @ ds,
              instancesByUID := fold index_put ds (instancesByUID s0)\<rparr>)"
proof (induction names arbitrary: ds s0)
  case Nil
  then show ?case by simp
next
  case (Cons n names)
  from Cons.prems obtain d ds' where ds: "ds = d # ds'"
    and d: "newDicomInstance e n (dataDictionary s0) = Inr d"
    and rest: "list_all2 (\<lambda>n d. newDicomInstance e n (dataDictionary s0) = Inr d) names ds'"
    by (auto simp add: list_all2_Cons1)
  let ?s1 = "s0\<lparr>instances := instances s0 @ [d],
                 instancesByUID := index_put d (instancesByUID s0)\<rparr>"
  have "list_all2 (\<lambda>n d. newDicomInstance e n (dataDictionary ?s1) = Inr d) names ds'"
    using rest by simp
  from Cons.IH [OF this] show ?case
    using d ds by simp
qed

lemma read_loop_Inr:
  "read_loop e names s0 = Inr s \<Longrightarrow>
     \<exists>ds. list_all2 (\<lambda>n d. newDicomInstance e n (dataDictionary s0) = Inr d) names ds
        \<and> s = s0\<lparr>instances := instances s0 @ ds,
              instancesByUID := fold index_put ds (instancesByUID s0)\<rparr>"
proof (induction names arbitrary: s0)
  case Nil
  then show ?case by simp
next
  case (Cons n names)
  from Cons.prems obtain d where d: "newDicomInstance e n (dataDictionary s0) = Inr d"
    by (auto split: sum.splits)
  let ?s1 = "s0\<lparr>instances := instances s0 @ [d],
                 instancesByUID := index_put d (instancesByUID s0)\<rparr>"
  from Cons.prems d have "read_loop e names ?s1 = Inr s" by simp
  from Cons.IH [OF this] obtain ds where
    all: "list_all2 (\<lambda>n d. newDicomInstance e n (dataDictionary ?s1) = Inr d) names ds"
    and s: "s = ?s1\<lparr>instances := instances ?s1 @ ds,
              instancesByUID := fold index_put ds (instancesByUID ?s1)\<rparr>"
    by blast
  have "list_all2 (\<lambda>n d. newDicomInstance e n (dataDictionary s0) = Inr d) (n # names) (d # ds)"
    using all d by simp
  moreover have "s = s0\<lparr>instances := instances s0 @ d # ds,
      instancesByUID := fold index_put (d # ds) (instancesByUID s0)\<rparr>"
    using s by simp
  ultimately show ?case by blast
qed

lemma index_put_apply:
  "index_put d m u = (if u = sopInstanceUID d then Some d else m u)"
  by (simp add: index_put_def)

lemma fold_index_keep:
  "\<forall>d \<in> set ds. sopInstanceUID d \<noteq> u \<Longrightarrow>
     fold index_put ds m0 u = m0 u"
  by (induction ds arbitrary: m0) (auto simp add: index_put_apply)

lemma fold_index_last:
  "j < length ds \<Longrightarrow>
   \<forall>k. j < k \<and> k < length ds \<longrightarrow> sopInstanceUID (ds ! k) \<noteq> sopInstanceUID (ds ! j) \<Longrightarrow>
     fold index_put ds m0 (sopInstanceUID (ds ! j)) = Some (ds ! j)"
proof (induction ds arbitrary: j m0)
  case Nil
  then show ?case by simp
next
  case (Cons d ds)
  show ?case
  proof (cases j)
    case 0
    have "\<forall>d' \<in> set ds. sopInstanceUID d' \<noteq> sopInstanceUID d"
    proof
      fix d' assume "d' \<in> set ds"
      then obtain k where k: "k < length ds" and d': "ds ! k = d'"
        by (auto simp add: in_set_conv_nth)
      from Cons.prems(2) [rule_format, of "Suc k"] 0 k d'
      show "sopInstanceUID d' \<noteq> sopInstanceUID d" by simp
    qed
    then have "fold index_put ds (index_put d m0) (sopInstanceUID d)
        = index_put d m0 (sopInstanceUID d)"
      by (rule fold_index_keep)
    moreover have "index_put d m0 (sopInstanceUID d) = Some d"
      by (simp add: index_put_def)
    ultimately show ?thesis using 0 by simp
  next
    case (Suc j')
    have "j' < length ds" using Cons.prems(1) Suc by simp
    moreover have "\<forall>k. j' < k \<and> k < length ds \<longrightarrow>
        sopInstanceUID (ds ! k) \<noteq> sopInstanceUID (ds ! j')"
    proof (intro allI impI)
      fix k assume "j' < k \<and> k < length ds"
      with Cons.prems(2) [rule_format, of "Suc k"] Suc
      show "sopInstanceUID (ds ! k) \<noteq> sopInstanceUID (ds ! j')" by simp
    qed
    ultimately show ?thesis using Cons.IH [of j'] Suc by simp
  qed
qed

lemma init_Inr:
  assumes "init e w dir url = Inr s"
  shows "\<exists>dd ds. isdir w dir \<and> newDataDictionary e url = Inr dd
      \<and> list_all2 (\<lambda>n d. newDicomInstance e n dd = Inr d) (dcmNames e w dir) ds
      \<and> s = \<lparr>dcmDir = dir, instances = ds,
             instancesByUID = fold index_put ds Map.empty,
             dataDictionary = dd, output_file = None\<rparr>"
proof -
  from assms have dir: "isdir w dir"
    by (auto simp add: init_def split: if_splits)
  with assms obtain dd where dd: "newDataDictionary e url = Inr dd"
    by (auto simp add: init_def split: sum.splits)
  let ?s0 = "\<lparr>dcmDir = dir, instances = [], instancesByUID = Map.empty,
              dataDictionary = dd, output_file = None\<rparr>"
  from assms dir dd have "read_loop e (dcmNames e w dir) ?s0 = Inr s"
    by (simp add: init_def read_def)
  from read_loop_Inr [OF this] dir dd show ?thesis by auto
qed

lemma dcmNames_world0:
  "dcmNames env0 world0 ''/studies/A'' = [''/studies/A/sub/a.dcm'', ''/studies/A/b.dcm'']"
  by (simp add: dcmNames_def os_walk_def world0_def accepted_def join_def env0_def)

lemma init_world0: "init env0 world0 ''/studies/A'' ''url'' = Inr study0"
proof -
  have "isdir world0 ''/studies/A''"
    by (simp add: isdir_def world0_def)
  moreover have "newDataDictionary env0 ''url'' = Inr (DataDictionary ''url'')"
    by (simp add: env0_def)
  moreover have "read_loop env0 [''/studies/A/sub/a.dcm'', ''/studies/A/b.dcm'']
      \<lparr>dcmDir = ''/studies/A'', instances = [], instancesByUID = Map.empty,
       dataDictionary = DataDictionary ''url'', output_file = None\<rparr> = Inr study0"
    by (simp add: env0_def study0_def index_put_def inst_a_def inst_b_def)
  ultimately show ?thesis
    by (simp add: init_def read_def dcmNames_world0)
qed

lemma init_instances:
  assumes "init e w dir url = Inr s"
  shows "length (instances s) = length (dcmNames e w dir)
     \<and> (\<forall>k < length (dcmNames e w dir).
           newDicomInstance e (dcmNames e w dir ! k) (dataDictionary s) = Inr (instances s ! k))
     \<and> instancesByUID s = fold index_put (instances s) Map.empty
     \<and> output_file s = None \<and> dcmDir s = dir"
proof -
  from init_Inr [OF assms] obtain dd ds
    where all: "list_all2 (\<lambda>n d. newDicomInstance e n dd = Inr d) (dcmNames e w dir) ds"
      and s: "s = \<lparr>dcmDir = dir, instances = ds,
             instancesByUID = fold index_put ds Map.empty,
             dataDictionary = dd, output_file = None\<rparr>"
    by blast
  from all have "length (dcmNames e w dir) = length ds"
    by (rule list_all2_lengthD)
  moreover from all have "\<forall>k < length (dcmNames e w dir).
      newDicomInstance e (dcmNames e w dir ! k) dd = Inr (ds ! k)"
    by (simp add: list_all2_conv_all_nth)
  ultimately show ?thesis using s by simp
qed

lemma index_last_wins:
  assumes "instancesByUID s = fold index_put (instances s) Map.empty"
    and "j < length (instances s)"
    and "\<forall>k. j < k \<and> k < length (instances s) \<longrightarrow>
           sopInstanceUID (instances s ! k) \<noteq> sopInstanceUID (instances s ! j)"
  shows "instanceByUID s (sopInstanceUID (instances s ! j)) = Inr (instances s ! j)"
  using fold_index_last [OF assms(2,3), of Map.empty] assms(1)
  by (simp add: instanceByUID_def)

text \<open>
  C7: over a path that is not an existing directory, construction raises \<^verbatim>\<open>IOError\<close>
  ("Directory does not exist", the spec's NotFound) at its first statement, and the
  result is the exception alone: there is no study, partial or otherwise. Over an
  existing directory the check passes and construction goes on to build the data
  dictionary and read the tree; it returns the study whenever the collaborators'
  constructors return.
\<close>

theorem init_directory:
  "(\<not> isdir w dir \<longrightarrow>
      init e w dir url = Inl (IOError (''Directory does not exist - '' @ dir)))
   \<and> (isdir w dir \<longrightarrow>
      init e w dir url =
        (case newDataDictionary e url of
           Inl x \<Rightarrow> Inl x
         | Inr dd \<Rightarrow>
             read e w \<lparr>dcmDir = dir, instances = [], instancesByUID = Map.empty,
                       dataDictionary = dd, output_file = None\<rparr>))
   \<and> (isdir w dir \<and> newDataDictionary e url = Inr dd
        \<and> list_all2 (\<lambda>n d. newDicomInstance e n dd = Inr d) (dcmNames e w dir) ds \<longrightarrow>
      init e w dir url =
        Inr \<lparr>dcmDir = dir, instances = ds,
             instancesByUID = fold index_put ds Map.empty,
             dataDictionary = dd, output_file = None\<rparr>)"
proof (intro conjI impI)
  assume "\<not> isdir w dir"
  then show "init e w dir url = Inl (IOError (''Directory does not exist - '' @ dir))"
    by (simp add: init_def)
next
  assume "isdir w dir"
  then show "init e w dir url =
        (case newDataDictionary e url of
           Inl x \<Rightarrow> Inl x
         | Inr dd \<Rightarrow>
             read e w \<lparr>dcmDir = dir, instances = [], instancesByUID = Map.empty,
                       dataDictionary = dd, output_file = None\<rparr>)"
    by (simp add: init_def)
next
  let ?s0 = "\<lparr>dcmDir = dir, instances = [], instancesByUID = Map.empty,
              dataDictionary = dd, output_file = None\<rparr>"
  assume a: "isdir w dir \<and> newDataDictionary e url = Inr dd
        \<and> list_all2 (\<lambda>n d. newDicomInstance e n dd = Inr d) (dcmNames e w dir) ds"
  then have "list_all2 (\<lambda>n d. newDicomInstance e n (dataDictionary ?s0) = Inr d)
      (dcmNames e w dir) ds"
    by simp
  from read_loop_total [OF this] a
  show "init e w dir url =
        Inr \<lparr>dcmDir = dir, instances = ds,
             instancesByUID = fold index_put ds Map.empty,
             dataDictionary = dd, output_file = None\<rparr>"
    by (simp add: init_def read_def)
qed

theorem init_directory_witness:
  "init env0 world0 ''/studies/B'' ''url'' = Inl (IOError ''Directory does not exist - /studies/B'')
   \<and> init env0 world0 ''/studies/A'' ''url'' = Inr study0"
proof -
  have "\<not> isdir world0 ''/studies/B''"
    by (simp add: isdir_def world0_def)
  with init_directory [of world0 "''/studies/B''" env0 "''url''"]
  have b: "init env0 world0 ''/studies/B'' ''url''
      = Inl (IOError (''Directory does not exist - '' @ ''/studies/B''))"
    by blast
  have "isdir world0 ''/studies/A''"
    by (simp add: isdir_def world0_def)
  moreover have "newDataDictionary env0 ''url'' = Inr (DataDictionary ''url'')"
    by (simp add: env0_def)
  moreover have "list_all2 (\<lambda>n d. newDicomInstance env0 n (DataDictionary ''url'') = Inr d)
      (dcmNames env0 world0 ''/studies/A'') [inst_a, inst_b]"
    unfolding dcmNames_world0 by (simp add: env0_def)
  ultimately have "init env0 world0 ''/studies/A'' ''url'' =
        Inr \<lparr>dcmDir = ''/studies/A'', instances = [inst_a, inst_b],
             instancesByUID = fold index_put [inst_a, inst_b] Map.empty,
             dataDictionary = DataDictionary ''url'', output_file = None\<rparr>"
    using init_directory [of world0 "''/studies/A''" env0 "''url''" "DataDictionary ''url''"
        "[inst_a, inst_b]"]
    by blast
  then have a: "init env0 world0 ''/studies/A'' ''url'' = Inr study0"
    by (simp add: study0_def index_put_def inst_a_def inst_b_def)
  from a b show ?thesis by simp
qed

text \<open>
  C4: let two of the discovered files, the \<open>i\<close>-th and the later \<open>j\<close>-th in traversal
  order, report the same unique identifier, and no file after the \<open>j\<close>-th report it.
  Then the constructed study counts every discovered file, holds both descriptors at
  their positions of the ordered sequence, and its index maps the identifier to the
  later descriptor (a dictionary holds one entry per key).
\<close>

theorem read_collision:
  assumes "init e w dir url = Inr s"
    and "i < j" and "j < length (dcmNames e w dir)"
    and "newDicomInstance e (dcmNames e w dir ! i) (dataDictionary s) = Inr di"
    and "newDicomInstance e (dcmNames e w dir ! j) (dataDictionary s) = Inr dj"
    and "sopInstanceUID di = sopInstanceUID dj"
    and "\<forall>k d. j < k \<and> k < length (dcmNames e w dir)
            \<and> newDicomInstance e (dcmNames e w dir ! k) (dataDictionary s) = Inr d
          \<longrightarrow> sopInstanceUID d \<noteq> sopInstanceUID dj"
  shows "numInstances s = int (length (dcmNames e w dir))
     \<and> instance_n s (int i) = Inr di \<and> instance_n s (int j) = Inr dj
     \<and> instanceByUID s (sopInstanceUID dj) = Inr dj"
proof -
  note I = init_instances [OF assms(1)]
  from I have len: "length (instances s) = length (dcmNames e w dir)" by blast
  from I have each: "\<forall>k < length (dcmNames e w dir).
      newDicomInstance e (dcmNames e w dir ! k) (dataDictionary s) = Inr (instances s ! k)"
    by blast
  from assms(2,3) have i: "i < length (dcmNames e w dir)" by simp
  from each [rule_format, OF i] assms(4) have di: "instances s ! i = di" by simp
  from each [rule_format, OF assms(3)] assms(5) have dj: "instances s ! j = dj" by simp
  have later: "\<forall>k. j < k \<and> k < length (instances s) \<longrightarrow>
           sopInstanceUID (instances s ! k) \<noteq> sopInstanceUID (instances s ! j)"
  proof (intro allI impI)
    fix k assume k: "j < k \<and> k < length (instances s)"
    with each len have "newDicomInstance e (dcmNames e w dir ! k) (dataDictionary s)
        = Inr (instances s ! k)" by simp
    with assms(7) k len dj
    show "sopInstanceUID (instances s ! k) \<noteq> sopInstanceUID (instances s ! j)"
      by auto
  qed
  from I have idx: "instancesByUID s = fold index_put (instances s) Map.empty" by blast
  have "instanceByUID s (sopInstanceUID (instances s ! j)) = Inr (instances s ! j)"
    using idx _ later by (rule index_last_wins) (simp add: len assms(3))
  moreover have "instance_n s (int i) = Inr di"
    using di len assms(2,3) by (simp add: instance_n_def)
  moreover have "instance_n s (int j) = Inr dj"
    using dj len assms(3) by (simp add: instance_n_def)
  ultimately show ?thesis using dj len by (simp add: numInstances_def)
qed

theorem read_collision_witness:
  "numInstances study0 = 2
   \<and> instance_n study0 0 = Inr inst_a \<and> instance_n study0 1 = Inr inst_b
   \<and> sopInstanceUID inst_a = sopInstanceUID inst_b
   \<and> instanceByUID study0 ''1.2.3'' = Inr inst_b"
proof -
  have "newDicomInstance env0 (dcmNames env0 world0 ''/studies/A'' ! 0) (dataDictionary study0)
      = Inr inst_a"
    unfolding dcmNames_world0 by (simp add: env0_def)
  moreover have "newDicomInstance env0 (dcmNames env0 world0 ''/studies/A'' ! 1)
      (dataDictionary study0) = Inr inst_b"
    unfolding dcmNames_world0 by (simp add: env0_def)
  moreover have "sopInstanceUID inst_a = sopInstanceUID inst_b"
    by (simp add: inst_a_def inst_b_def)
  moreover have "(1::nat) < length (dcmNames env0 world0 ''/studies/A'')"
    by (simp add: dcmNames_world0)
  moreover have "\<forall>k d. 1 < k \<and> k < length (dcmNames env0 world0 ''/studies/A'')
            \<and> newDicomInstance env0 (dcmNames env0 world0 ''/studies/A'' ! k)
                 (dataDictionary study0) = Inr d
          \<longrightarrow> sopInstanceUID d \<noteq> sopInstanceUID inst_b"
    by (auto simp add: dcmNames_world0)
  ultimately have "numInstances study0 = int (length (dcmNames env0 world0 ''/studies/A''))
     \<and> instance_n study0 (int 0) = Inr inst_a \<and> instance_n study0 (int 1) = Inr inst_b
     \<and> instanceByUID study0 (sopInstanceUID inst_b) = Inr inst_b"
    using read_collision [OF init_world0, of 0 1 inst_a inst_b] by simp
  then show ?thesis
    by (simp add: dcmNames_world0 inst_a_def inst_b_def)
qed

subsection \<open>Traversal order\<close>

lemma walk_subs_segment:
  "map_of subs c = Some t' \<Longrightarrow>
     \<exists>pre post. walk_subs tp subs = pre @ walk (join tp c) t' @ post"
proof (induction subs)
  case Nil
  then show ?case by simp
next
  case (Cons a subs)
  obtain n sub where a: "a = (n, sub)" by (cases a)
  show ?case
  proof (cases "n = c")
    case True
    with Cons.prems a have "sub = t'" by simp
    with True a have "walk_subs tp (a # subs) = [] @ walk (join tp c) t' @ walk_subs tp subs"
      by simp
    then show ?thesis by blast
  next
    case False
    with Cons.prems a have "map_of subs c = Some t'" by simp
    from Cons.IH [OF this] obtain pre post
      where "walk_subs tp subs = pre @ walk (join tp c) t' @ post" by blast
    with a have "walk_subs tp (a # subs)
        = (walk (join tp n) sub @ pre) @ walk (join tp c) t' @ post"
      by simp
    then show ?thesis by blast
  qed
qed

lemma walk_segment:
  "subtree_at t p = Some A \<Longrightarrow>
     \<exists>pre post. walk tp t = pre @ walk (path_of tp p) A @ post"
proof (induction p arbitrary: t tp)
  case Nil
  then have "walk tp t = [] @ walk (path_of tp []) A @ []"
    by (simp add: path_of_def)
  then show ?case by blast
next
  case (Cons c cs)
  obtain fs subs where t: "t = Dir fs subs" by (cases t)
  with Cons.prems obtain t' where c: "map_of subs c = Some t'"
    and cs: "subtree_at t' cs = Some A"
    by (auto split: option.splits)
  from walk_subs_segment [OF c] obtain pre post
    where subs: "walk_subs tp subs = pre @ walk (join tp c) t' @ post" by blast
  from Cons.IH [OF cs] obtain pre' post'
    where sub: "walk (join tp c) t' = pre' @ walk (path_of (join tp c) cs) A @ post'"
    by blast
  have "walk tp t = (pre @ pre') @ walk (path_of tp (c # cs)) A
                      @ (post' @ post @ [(tp, map fst subs, fs)])"
    using t subs sub by (simp add: path_of_def)
  then show ?case by blast
qed

lemma walk_own_last:
  "\<exists>pre. walk tp A = pre @ [(tp, map fst (dsubs A), dfiles A)]"
  by (cases A) simp

lemma walk_descendant_first:
  assumes "subtree_at A q = Some B" and "q \<noteq> []"
  shows "\<exists>pre mid. walk tp A
     = pre @ [(path_of tp q, map fst (dsubs B), dfiles B)] @ mid
         @ [(tp, map fst (dsubs A), dfiles A)]"
proof -
  obtain fs subs where A: "A = Dir fs subs" by (cases A)
  from assms(2) obtain c cs where q: "q = c # cs" by (cases q) auto
  with assms(1) A obtain t' where c: "map_of subs c = Some t'"
    and cs: "subtree_at t' cs = Some B"
    by (auto split: option.splits)
  from walk_subs_segment [OF c] obtain pre post
    where subs: "walk_subs tp subs = pre @ walk (join tp c) t' @ post" by blast
  from walk_segment [OF cs] obtain pre' post'
    where sub: "walk (join tp c) t' = pre' @ walk (path_of (join tp c) cs) B @ post'"
    by blast
  from walk_own_last obtain pre''
    where own: "walk (path_of (join tp c) cs) B
        = pre'' @ [(path_of (join tp c) cs, map fst (dsubs B), dfiles B)]"
    by blast
  have "path_of (join tp c) cs = path_of tp q"
    using q by (simp add: path_of_def)
  with A subs sub own
  have "walk tp A = (pre @ pre' @ pre'') @ [(path_of tp q, map fst (dsubs B), dfiles B)]
          @ (post' @ post) @ [(tp, map fst (dsubs A), dfiles A)]"
    by simp
  then show ?thesis by blast
qed

lemma walk_descendant_before:
  assumes "subtree_at t p = Some A" and "subtree_at A q = Some B" and "q \<noteq> []"
  shows "\<exists>pre mid post. walk tp t
     = pre @ [(path_of tp (p @ q), map fst (dsubs B), dfiles B)] @ mid
         @ [(path_of tp p, map fst (dsubs A), dfiles A)] @ post"
proof -
  from walk_segment [OF assms(1)] obtain pre post
    where t: "walk tp t = pre @ walk (path_of tp p) A @ post" by blast
  from walk_descendant_first [OF assms(2,3)] obtain pre' mid
    where A: "walk (path_of tp p) A
       = pre' @ [(path_of (path_of tp p) q, map fst (dsubs B), dfiles B)] @ mid
           @ [(path_of tp p, map fst (dsubs A), dfiles A)]"
    by blast
  have "path_of (path_of tp p) q = path_of tp (p @ q)"
    by (simp add: path_of_def)
  with t A have "walk tp t
     = (pre @ pre') @ [(path_of tp (p @ q), map fst (dsubs B), dfiles B)] @ mid
         @ [(path_of tp p, map fst (dsubs A), dfiles A)] @ post"
    by simp
  then show ?thesis by blast
qed

lemma accepted_member:
  "f \<in> set fs \<Longrightarrow> isDicom e (join root f) \<Longrightarrow> join root f \<in> set (accepted e (root, ds, fs))"
  by (simp add: accepted_def)

lemma names_positions:
  "names = a @ nf # b @ ng # c \<Longrightarrow>
     \<exists>i j. i < j \<and> j < length names \<and> names ! i = nf \<and> names ! j = ng"
proof -
  assume n: "names = a @ nf # b @ ng # c"
  have "names ! length a = nf" using n by simp
  moreover have "names ! (length a + Suc (length b)) = ng"
    using n by (simp add: nth_append)
  moreover have "length a < length a + Suc (length b)" by simp
  moreover have "length a + Suc (length b) < length names" using n by simp
  ultimately show ?thesis by blast
qed

lemma dcmNames_descendant_before:
  assumes "dirs w tp = Some t"
    and "subtree_at t p = Some A" and "subtree_at A q = Some B" and "q \<noteq> []"
    and "f \<in> set (dfiles B)" and "g \<in> set (dfiles A)"
    and "isDicom e (join (path_of tp (p @ q)) f)" and "isDicom e (join (path_of tp p) g)"
  shows "\<exists>i j. i < j \<and> j < length (dcmNames e w tp)
     \<and> dcmNames e w tp ! i = join (path_of tp (p @ q)) f
     \<and> dcmNames e w tp ! j = join (path_of tp p) g"
proof -
  let ?tB = "(path_of tp (p @ q), map fst (dsubs B), dfiles B)"
  let ?tA = "(path_of tp p, map fst (dsubs A), dfiles A)"
  from walk_descendant_before [OF assms(2,3,4)] obtain pre mid post
    where "walk tp t = pre @ [?tB] @ mid @ [?tA] @ post" by blast
  with assms(1) have names: "dcmNames e w tp
      = concat (map (accepted e) pre) @ accepted e ?tB
          @ concat (map (accepted e) mid) @ accepted e ?tA @ concat (map (accepted e) post)"
    by (simp add: dcmNames_def os_walk_def)
  have "join (path_of tp (p @ q)) f \<in> set (accepted e ?tB)"
    using assms(5,7) by (rule accepted_member)
  then obtain x1 x2
    where B: "accepted e ?tB = x1 @ join (path_of tp (p @ q)) f # x2"
    by (blast dest: split_list)
  have "join (path_of tp p) g \<in> set (accepted e ?tA)"
    using assms(6,8) by (rule accepted_member)
  then obtain y1 y2
    where A: "accepted e ?tA = y1 @ join (path_of tp p) g # y2"
    by (blast dest: split_list)
  have "dcmNames e w tp
      = (concat (map (accepted e) pre) @ x1) @ join (path_of tp (p @ q)) f
          # (x2 @ concat (map (accepted e) mid) @ y1) @ join (path_of tp p) g
          # (y2 @ concat (map (accepted e) post))"
    using names A B by simp
  then show ?thesis by (rule names_positions)
qed

lemma dcmNames_world1:
  "dcmNames env1 world1 ''/r'' = [''/r/a/deep/f.dcm'', ''/r/a/g.dcm'', ''/r/z/h.dcm'']"
  by (simp add: dcmNames_def os_walk_def world1_def accepted_def join_def env1_def
      tree_r_def tree_a_def tree_z_def tree_deep_def)

lemma init_world1: "init env1 world1 ''/r'' ''url'' = Inr study1"
proof -
  have "isdir world1 ''/r''"
    by (simp add: isdir_def world1_def)
  moreover have "newDataDictionary env1 ''url'' = Inr (DataDictionary ''url'')"
    by (simp add: env1_def)
  moreover have "read_loop env1 [''/r/a/deep/f.dcm'', ''/r/a/g.dcm'', ''/r/z/h.dcm'']
      \<lparr>dcmDir = ''/r'', instances = [], instancesByUID = Map.empty,
       dataDictionary = DataDictionary ''url'', output_file = None\<rparr> = Inr study1"
    by (simp add: env1_def study1_def index_put_def inst_f_def inst_g_def inst_h_def)
  ultimately show ?thesis
    by (simp add: init_def read_def dcmNames_world1)
qed

text \<open>
  C10, as stated, fails on the code in its last part: the index retains the descriptor
  stored last, which need not be the ancestor directory's. In the tree \<^verbatim>\<open>/r\<close>, the
  file \<^verbatim>\<open>f.dcm\<close> of the subdirectory \<^verbatim>\<open>a/deep\<close> and the file \<^verbatim>\<open>g.dcm\<close> of its
  ancestor \<^verbatim>\<open>a\<close> report the same identifier, and so does \<^verbatim>\<open>h.dcm\<close> of the
  directory \<^verbatim>\<open>z\<close>, which is walked after \<^verbatim>\<open>a\<close>: the index retains the descriptor
  of \<^verbatim>\<open>h.dcm\<close>.
\<close>

theorem walk_bottom_up_counterexample:
  "init env1 world1 ''/r'' ''url'' = Inr study1
   \<and> dirs world1 ''/r'' = Some tree_r
   \<and> subtree_at tree_r [''a''] = Some tree_a
   \<and> subtree_at tree_a [''deep''] = Some tree_deep
   \<and> ''f.dcm'' \<in> set (dfiles tree_deep) \<and> ''g.dcm'' \<in> set (dfiles tree_a)
   \<and> newDicomInstance env1 (join (path_of ''/r'' [''a'', ''deep'']) ''f.dcm'')
         (dataDictionary study1) = Inr inst_f
   \<and> newDicomInstance env1 (join (path_of ''/r'' [''a'']) ''g.dcm'')
         (dataDictionary study1) = Inr inst_g
   \<and> instances study1 = [inst_f, inst_g, inst_h]
   \<and> sopInstanceUID inst_f = sopInstanceUID inst_g
   \<and> instanceByUID study1 (sopInstanceUID inst_g) = Inr inst_h
   \<and> inst_h \<noteq> inst_g"
proof -
  have "dirs world1 ''/r'' = Some tree_r" by (simp add: world1_def)
  moreover have "subtree_at tree_r [''a''] = Some tree_a" by (simp add: tree_r_def)
  moreover have "subtree_at tree_a [''deep''] = Some tree_deep" by (simp add: tree_a_def)
  moreover have "''f.dcm'' \<in> set (dfiles tree_deep)" by (simp add: tree_deep_def)
  moreover have "''g.dcm'' \<in> set (dfiles tree_a)" by (simp add: tree_a_def)
  moreover have "join (path_of ''/r'' [''a'', ''deep'']) ''f.dcm'' = ''/r/a/deep/f.dcm''"
    by (simp add: path_of_def join_def)
  then have "newDicomInstance env1 (join (path_of ''/r'' [''a'', ''deep'']) ''f.dcm'')
         (dataDictionary study1) = Inr inst_f"
    by (simp add: env1_def)
  moreover have "join (path_of ''/r'' [''a'']) ''g.dcm'' = ''/r/a/g.dcm''"
    by (simp add: path_of_def join_def)
  then have "newDicomInstance env1 (join (path_of ''/r'' [''a'']) ''g.dcm'')
         (dataDictionary study1) = Inr inst_g"
    by (simp add: env1_def)
  moreover have "instances study1 = [inst_f, inst_g, inst_h]" by (simp add: study1_def)
  moreover have "sopInstanceUID inst_f = sopInstanceUID inst_g"
    by (simp add: inst_f_def inst_g_def)
  moreover have "instanceByUID study1 (sopInstanceUID inst_g) = Inr inst_h"
    by (simp add: instanceByUID_def study1_def inst_g_def)
  moreover have "inst_h \<noteq> inst_g" by (simp add: inst_h_def inst_g_def)
  ultimately show ?thesis using init_world1 by blast
qed

text \<open>
  C10, amended: the walk is bottom-up. Let \<open>A\<close> be a directory of the walked tree (the
  walked directory itself, or any directory below it), \<open>B\<close> a directory strictly below
  \<open>A\<close>, \<open>f\<close> an accepted file directly in \<open>B\<close> and \<open>g\<close> an accepted file directly in
  \<open>A\<close>. Then the descriptor of \<open>f\<close> stands in the ordered sequence before the
  descriptor of \<open>g\<close>; and when the two report the same unique identifier, and no
  descriptor later in the sequence reports it, the index retains the descriptor of
  \<open>g\<close>, the file of the ancestor directory.
\<close>

theorem walk_bottom_up:
  assumes "init e w tp url = Inr s" and "dirs w tp = Some t"
    and "subtree_at t p = Some A" and "subtree_at A q = Some B" and "q \<noteq> []"
    and "f \<in> set (dfiles B)" and "g \<in> set (dfiles A)"
    and "isDicom e (join (path_of tp (p @ q)) f)" and "isDicom e (join (path_of tp p) g)"
  shows "\<exists>i j. i < j \<and> j < length (instances s)
     \<and> newDicomInstance e (join (path_of tp (p @ q)) f) (dataDictionary s)
         = Inr (instances s ! i)
     \<and> newDicomInstance e (join (path_of tp p) g) (dataDictionary s)
         = Inr (instances s ! j)
     \<and> (sopInstanceUID (instances s ! i) = sopInstanceUID (instances s ! j)
        \<and> (\<forall>k. j < k \<and> k < length (instances s) \<longrightarrow>
              sopInstanceUID (instances s ! k) \<noteq> sopInstanceUID (instances s ! j))
        \<longrightarrow> instanceByUID s (sopInstanceUID (instances s ! j)) = Inr (instances s ! j))"
proof -
  note I = init_instances [OF assms(1)]
  from I have len: "length (instances s) = length (dcmNames e w tp)" by blast
  from I have idx: "instancesByUID s = fold index_put (instances s) Map.empty" by blast
  from dcmNames_descendant_before [OF assms(2-9)] obtain i j
    where ij: "i < j" and j: "j < length (dcmNames e w tp)"
      and ni: "dcmNames e w tp ! i = join (path_of tp (p @ q)) f"
      and nj: "dcmNames e w tp ! j = join (path_of tp p) g"
    by blast
  from I have each: "\<forall>k < length (dcmNames e w tp).
      newDicomInstance e (dcmNames e w tp ! k) (dataDictionary s) = Inr (instances s ! k)"
    by blast
  from ij j have i: "i < length (dcmNames e w tp)" by simp
  from each [rule_format, OF i] ni
  have "newDicomInstance e (join (path_of tp (p @ q)) f) (dataDictionary s)
         = Inr (instances s ! i)" by simp
  moreover from each [rule_format, OF j] nj
  have "newDicomInstance e (join (path_of tp p) g) (dataDictionary s)
         = Inr (instances s ! j)" by simp
  moreover have "sopInstanceUID (instances s ! i) = sopInstanceUID (instances s ! j)
        \<and> (\<forall>k. j < k \<and> k < length (instances s) \<longrightarrow>
              sopInstanceUID (instances s ! k) \<noteq> sopInstanceUID (instances s ! j))
        \<longrightarrow> instanceByUID s (sopInstanceUID (instances s ! j)) = Inr (instances s ! j)"
    using index_last_wins [OF idx] j len by simp
  ultimately show ?thesis using ij j len by auto
qed

theorem walk_bottom_up_witness:
  "dcmNames env0 world0 ''/studies/A'' = [''/studies/A/sub/a.dcm'', ''/studies/A/b.dcm'']
   \<and> instances study0 = [inst_a, inst_b]
   \<and> instanceByUID study0 (sopInstanceUID inst_a) = Inr inst_b"
proof -
  let ?A = "Dir [''b.dcm'', ''notes.txt''] [(''sub'', Dir [''a.dcm''] [])]"
  let ?B = "Dir [''a.dcm''] []"
  have d: "dirs world0 ''/studies/A'' = Some ?A" by (simp add: world0_def)
  have a: "subtree_at ?A [] = Some ?A" by simp
  have b: "subtree_at ?A [''sub''] = Some ?B" by simp
  have q: "[''sub''] \<noteq> []" by simp
  have f: "''a.dcm'' \<in> set (dfiles ?B)" by simp
  have g: "''b.dcm'' \<in> set (dfiles ?A)" by simp
  have pf: "join (path_of ''/studies/A'' ([] @ [''sub''])) ''a.dcm'' = ''/studies/A/sub/a.dcm''"
    by (simp add: path_of_def join_def)
  have pg: "join (path_of ''/studies/A'' []) ''b.dcm'' = ''/studies/A/b.dcm''"
    by (simp add: path_of_def join_def)
  have af: "isDicom env0 (join (path_of ''/studies/A'' ([] @ [''sub''])) ''a.dcm'')"
    unfolding pf by (simp add: env0_def)
  have ag: "isDicom env0 (join (path_of ''/studies/A'' []) ''b.dcm'')"
    unfolding pg by (simp add: env0_def)
  have two: "length (instances study0) = 2" by (simp add: study0_def)
  from walk_bottom_up [OF init_world0 d a b q f g af ag] obtain i j
    where ij: "i < j" and j: "j < length (instances study0)"
      and coll: "sopInstanceUID (instances study0 ! i) = sopInstanceUID (instances study0 ! j)
        \<and> (\<forall>k. j < k \<and> k < length (instances study0) \<longrightarrow>
              sopInstanceUID (instances study0 ! k) \<noteq> sopInstanceUID (instances study0 ! j))
        \<longrightarrow> instanceByUID study0 (sopInstanceUID (instances study0 ! j))
              = Inr (instances study0 ! j)"
    by blast
  from ij j two have j1: "j = 1" and i0: "i = 0" by auto
  have "instances study0 ! 0 = inst_a" "instances study0 ! 1 = inst_b"
    by (simp_all add: study0_def)
  moreover have "sopInstanceUID inst_a = sopInstanceUID inst_b"
    by (simp add: inst_a_def inst_b_def)
  ultimately have "instanceByUID study0 (sopInstanceUID inst_a) = Inr inst_b"
    using coll i0 j1 two by auto
  then show ?thesis by (simp add: dcmNames_world0 study0_def)
qed

subsection \<open>\<^verbatim>\<open>debug\<close>\<close>

lemma debug_loop_stdout:
  "output_file s = None \<Longrightarrow> \<forall>k \<in> set ns. k < length (instances s) \<Longrightarrow>
     debug_loop w s ns =
       (None, w\<lparr>stdout := stdout w @ concat (map (\<lambda>k. debugBlock (instances s ! k)) ns)\<rparr>)"
  by (induction ns arbitrary: w) (simp_all add: instance_n_def instDebug_def)

lemma debug_stdout:
  assumes "output_file s = None"
  shows "\<exists>uid. studyInstanceUID s = Inr uid
     \<and> debug w s =
        (Inr (), w\<lparr>stdout := stdout w @ ''> Study '' @ uid @ newline
                              @ concat (map debugBlock (instances s))\<rparr>, s)"
proof -
  obtain uid where uid: "studyInstanceUID s = Inr uid"
    by (cases "instances s")
       (simp_all add: studyInstanceUID_def instance_n_def numInstances_def)
  have "map (\<lambda>k. debugBlock (instances s ! k)) [0 ..< length (instances s)]
      = map debugBlock (instances s)"
    by (rule nth_equalityI) simp_all
  then have "debug_loop (print2 w ''> Study'' uid) s [0 ..< nat (numInstances s)]
      = (None, w\<lparr>stdout := stdout w @ ''> Study '' @ uid @ newline
                              @ concat (map debugBlock (instances s))\<rparr>)"
    using assms by (simp add: debug_loop_stdout numInstances_def print2_def)
  with uid assms show ?thesis
    by (simp add: debug_def)
qed

text \<open>
  C8: on a freshly constructed study the sink is unset; \<^verbatim>\<open>setOutput\<close> on the empty
  string returns at once and leaves it unset. \<^verbatim>\<open>debug\<close> then appends the header line
  \<^verbatim>\<open>> Study <uid>\<close> and the descriptors' blocks to standard output and changes
  nothing else of the world: no file is written.
\<close>

theorem setOutput_empty_then_debug:
  assumes "init e w0 dir url = Inr s"
  shows "setOutput w s [] = (Inr (), w, s) \<and> output_file s = None
     \<and> (\<exists>uid. studyInstanceUID s = Inr uid
          \<and> debug w s =
             (Inr (), w\<lparr>stdout := stdout w @ ''> Study '' @ uid @ newline
                                    @ concat (map debugBlock (instances s))\<rparr>, s))"
proof -
  from init_instances [OF assms] have none: "output_file s = None" by blast
  have "setOutput w s [] = (Inr (), w, s)" by (simp add: setOutput_def)
  with none debug_stdout [OF none] show ?thesis by blast
qed

theorem setOutput_empty_then_debug_witness:
  "setOutput world0 study0 [] = (Inr (), world0, study0)
   \<and> debug world0 study0
       = (Inr (), world0\<lparr>stdout := ''> Study 9.9'' @ newline @ ''>> a>> b''\<rparr>, study0)
   \<and> files (world0\<lparr>stdout := ''> Study 9.9'' @ newline @ ''>> a>> b''\<rparr>) = files world0"
proof -
  from setOutput_empty_then_debug [OF init_world0, of world0] obtain uid
    where s: "setOutput world0 study0 [] = (Inr (), world0, study0)"
      and u: "studyInstanceUID study0 = Inr uid"
      and d: "debug world0 study0 =
             (Inr (), world0\<lparr>stdout := stdout world0 @ ''> Study '' @ uid @ newline
                                    @ concat (map debugBlock (instances study0))\<rparr>, study0)"
    by blast
  have "studyInstanceUID study0 = Inr ''9.9''"
    by (simp add: studyInstanceUID_def numInstances_def instance_n_def study0_def inst_a_def)
  with u have "uid = ''9.9''" by simp
  with s d show ?thesis
    by (simp add: study0_def world0_def inst_a_def inst_b_def)
qed

end
